theory Spec2Isabelle
  imports Main "HOL-Library.Multiset"
begin

text \<open>
  A shallow embedding of the logic of the form widget: the selection state of a choice
  question, the response store of a form view, the error flag of the text questions,
  and the two network calls (loading the form, submitting a response). Signals and the
  store are passed as values; a handler takes the current values and returns the new
  ones. Of the asynchronous \<^verbatim>\<open>submitForm\<close> the model has the part that runs in the click
  handler, up to the \<^verbatim>\<open>await\<close>; the functions that load the form and send a response
  are modelled whole, as functions of what their request settles to.
\<close>

section \<open>JavaScript strings\<close>

text \<open>
  A JavaScript string is modelled as a \<^typ>\<open>string\<close>, one \<^typ>\<open>char\<close> per code unit.
  The three string operations that \<^verbatim>\<open>onClickListener\<close> uses are \<^verbatim>\<open>includes\<close>
  (substring test), \<^verbatim>\<open>replace\<close> with a string pattern (only the first occurrence is
  replaced) and \<^verbatim>\<open>+\<close> (concatenation, \<open>@\<close>).
\<close>

fun startsWith :: "string \<Rightarrow> string \<Rightarrow> bool" where
  "startsWith s [] = True"
| "startsWith [] (p # ps) = False"
| "startsWith (c # cs) (p # ps) = (c = p \<and> startsWith cs ps)"

text \<open>\<^verbatim>\<open>s.includes(pat)\<close>: \<open>pat\<close> occurs in \<open>s\<close> as a contiguous substring.\<close>

fun str_includes :: "string \<Rightarrow> string \<Rightarrow> bool" where
  "str_includes [] pat = (pat = [])"
| "str_includes (c # cs) pat = (startsWith (c # cs) pat \<or> str_includes cs pat)"

text \<open>
  \<^verbatim>\<open>s.replace(pat, rep)\<close> for a string \<open>pat\<close>: the leftmost occurrence of \<open>pat\<close> is
  replaced by \<open>rep\<close>, the rest of \<open>s\<close> is kept; \<open>s\<close> is returned as it is when \<open>pat\<close>
  does not occur. (The source only ever passes the empty replacement, so the \<^verbatim>\<open>$\<close>
  patterns of a replacement string play no role.)
\<close>

fun str_replace :: "string \<Rightarrow> string \<Rightarrow> string \<Rightarrow> string" where
  "str_replace [] pat rep = (if pat = [] then rep else [])"
| "str_replace (c # cs) pat rep =
     (if startsWith (c # cs) pat then rep @ drop (length pat) (c # cs)
      else c # str_replace cs pat rep)"

section \<open>The selection state of a choice question (KMChoicePromptView.tsx)\<close>

text \<open>
  \<^verbatim>\<open>FButton.onClickListener\<close>, lines 180 to 188. The listener reads the signal
  \<^verbatim>\<open>selectedState()\<close> and writes it back through \<^verbatim>\<open>setSelectedState\<close>; the model takes the
  mode, the current value of the signal and the button's \<^verbatim>\<open>props.id\<close>, and returns the
  value the signal is set to.
\<close>

definition onClickListener :: "bool \<Rightarrow> string \<Rightarrow> string \<Rightarrow> string" where
  "onClickListener multipleChoiceMode selectedState ident =
     (if multipleChoiceMode then
        (if str_includes selectedState ident then str_replace selectedState ident ''''
         else selectedState @ ident)
      else (if selectedState = ident then '''' else ident))"

text \<open>The \<^verbatim>\<open>checked\<close> attribute of a button, line 192.\<close>

definition isSelected :: "string \<Rightarrow> string \<Rightarrow> bool" where
  "isSelected selectedState ident = str_includes selectedState ident"

text \<open>
  An option id is valid when it is one character out of \<^verbatim>\<open>'0'\<close> to \<^verbatim>\<open>'9'\<close> (the
  comment at lines 55 to 57 of the source).
\<close>

definition isDigit :: "char \<Rightarrow> bool" where
  "isDigit c = (c \<in> set ''0123456789'')"

definition validId :: "string \<Rightarrow> bool" where
  "validId ident = (case ident of [c] \<Rightarrow> isDigit c | _ \<Rightarrow> False)"

text \<open>
  The states a question's signal can take: it is created as the empty string
  (\<^verbatim>\<open>createSignal("")\<close>, line 79) and changes only through the click listener of one
  of the buttons, all of which run in the mode of the question.
\<close>

inductive reachable :: "bool \<Rightarrow> string \<Rightarrow> bool" where
  initial: "reachable m ''''"
| click: "reachable m s \<Longrightarrow> validId ident \<Longrightarrow> reachable m (onClickListener m s ident)"

text \<open>Clicking the buttons with the ids \<open>ids\<close>, one after the other.\<close>

definition clicks :: "bool \<Rightarrow> string \<Rightarrow> string list \<Rightarrow> string" where
  "clicks m s ids = foldl (onClickListener m) s ids"

section \<open>The data of a form (KMTypes)\<close>

datatype QuestionType =
  MultiChoice | SingleChoice | ShortAnswer | LongAnswer
  | SingleChoiceWithImage | MultiChoiceWithImage

record Option_t =
  id_o :: string
  title_o :: string
  subtitle_o :: string
  image_o :: "string option"

record Question =
  id_q :: string
  prompt_q :: string
  description_q :: "string option"
  type_q :: QuestionType
  options_q :: "Option_t list"
  required_q :: bool
  default_q :: "string option"
  placeholder_q :: "string option"
  formId_q :: string

record TypeForm =
  id_f :: string
  name_f :: string
  createdAt_f :: string
  stillAccepting_f :: bool
  questions_f :: "Question list"

text \<open>
  \<^verbatim>\<open>QuestionResponse\<close>: the optional \<^verbatim>\<open>id\<close> is \<open>None\<close> when the property is absent.
\<close>

record QuestionResponse =
  id_r :: "string option"
  questionId :: string
  value_r :: string

section \<open>The response store of a form view\<close>

text \<open>\<^verbatim>\<open>initialiseStore\<close>: one entry per question, made by \<^verbatim>\<open>questions.map\<close>.\<close>

definition initialiseStore :: "Question list \<Rightarrow> QuestionResponse list" where
  "initialiseStore questions =
     map (\<lambda>q. \<lparr>id_r = None, questionId = id_q q, value_r = ''''\<rparr>) questions"

text \<open>
  \<^verbatim>\<open>updateStore(id, value)\<close> sets the store to \<^verbatim>\<open>values.map(...)\<close>: an entry whose
  \<^verbatim>\<open>questionId\<close> is \<^verbatim>\<open>id\<close> is copied with its \<^verbatim>\<open>value\<close> replaced (the spread keeps its
  other properties), every other entry is kept. The function below is the new content
  of the store, given the old one.
\<close>

definition updateStore :: "QuestionResponse list \<Rightarrow> string \<Rightarrow> string \<Rightarrow> QuestionResponse list" where
  "updateStore values ident val =
     map (\<lambda>v. if questionId v = ident then v\<lparr>value_r := val\<rparr> else v) values"

section \<open>The text questions\<close>

text \<open>
  \<^verbatim>\<open>KMShortPromptView.onValueChange\<close>, run on every \<^verbatim>\<open>keyup\<close> of the input: it sets the
  \<^verbatim>\<open>error\<close> signal and calls \<^verbatim>\<open>storeUpdater(props.id, ref.value)\<close>. The model returns
  the new value of the signal and the arguments of that call.
\<close>

definition KMShortPromptView_onValueChange ::
  "bool \<Rightarrow> string \<Rightarrow> string \<Rightarrow> bool \<times> (string \<times> string)" where
  "KMShortPromptView_onValueChange required ident ref_value =
     (ref_value = '''' \<and> required, (ident, ref_value))"

text \<open>The error message of the short view has the class \<^verbatim>\<open>hidden\<close> when \<^verbatim>\<open>!error()\<close>.\<close>

definition KMShortPromptView_hidden :: "bool \<Rightarrow> bool" where
  "KMShortPromptView_hidden error = (\<not> error)"

text \<open>\<^verbatim>\<open>FLongPromptView.onValueChange\<close>, run on every \<^verbatim>\<open>keyup\<close> of the textarea.\<close>

definition FLongPromptView_onValueChange ::
  "bool \<Rightarrow> string \<Rightarrow> string \<Rightarrow> bool \<times> (string \<times> string)" where
  "FLongPromptView_onValueChange required ident ref_value =
     (ref_value = '''', (ident, ref_value))"

text \<open>
  The error message of the long view has the class \<^verbatim>\<open>hidden\<close> when
  \<^verbatim>\<open>!error() || !props.required\<close>.
\<close>

definition FLongPromptView_hidden :: "bool \<Rightarrow> bool \<Rightarrow> bool" where
  "FLongPromptView_hidden error required = (\<not> error \<or> \<not> required)"

text \<open>
  The values of the \<^verbatim>\<open>error\<close> signal of a text question over a sequence of keystrokes:
  the signal is created as \<^verbatim>\<open>false\<close>, and each keystroke leaves the field with the
  next content of \<open>contents\<close> and runs the handler.
\<close>

fun errorTrace ::
  "(string \<Rightarrow> bool \<times> (string \<times> string)) \<Rightarrow> bool \<Rightarrow> string list \<Rightarrow> bool list" where
  "errorTrace handler error [] = [error]"
| "errorTrace handler error (c # contents) =
     error # errorTrace handler (fst (handler c)) contents"

section \<open>The network\<close>

text \<open>
  The text that \<^verbatim>\<open>JSON.stringify\<close> returns for a form response is modelled by the values
  it was made from, at the time of the call: \<open>JSON_of\<close> of the form id and the entries.
  Any other text is \<open>Plain\<close>.
\<close>

record FormResponse_json =
  formId_j :: string
  questionResponses_j :: "QuestionResponse list"

datatype js_text = Plain string | JSON_of FormResponse_json

text \<open>One call of \<^verbatim>\<open>fetch(url, init)\<close>, with the properties of \<^verbatim>\<open>init\<close>.\<close>

record Request =
  url_rq :: string
  method_rq :: "string option"
  headers_rq :: "(string \<times> js_text) list"
  body_rq :: "js_text option"

text \<open>
  What \<^verbatim>\<open>json()\<close> makes of the body of a response. The body is not JSON and the
  promise rejects with the parser's error (\<open>NotJSON\<close>, with the text of the error), or
  it resolves to the parsed value. The source casts that value to \<^verbatim>\<open>TypeForm\<close> without
  looking at it, so the parsed value is one of: \<^verbatim>\<open>null\<close>; a form; or any other JSON value
  (an object that is not a form such as \<^verbatim>\<open>{}\<close>, an array, a number, a string, a
  boolean). Of a value of the last kind the code only ever reads the property
  \<^verbatim>\<open>stillAccepting\<close> and negates it: \<open>JsonOther t\<close> is such a value, \<open>t\<close> telling whether
  that property is truthy (it is not when the value has no such property, as \<^verbatim>\<open>{}\<close> and
  \<^verbatim>\<open>[]\<close> have none).
\<close>

datatype parsed = JsonNull | JsonForm TypeForm | JsonOther bool

datatype body = NotJSON string | Json parsed

text \<open>
  What the promise of a \<^verbatim>\<open>fetch\<close> settles to: it rejects (a network failure, with the
  text of the value thrown), or resolves to a response with a status and a body.
\<close>

datatype fetch_result = NetworkError string | HttpResponse nat body

text \<open>
  A value that is thrown and caught: one with a text of its own (the rejection of
  \<^verbatim>\<open>fetch\<close> or of \<^verbatim>\<open>json()\<close>, a string that the code throws), or the \<^verbatim>\<open>TypeError\<close> of
  the engine for reading a property of \<^verbatim>\<open>null\<close>.
\<close>

datatype thrown = Thrown string | TypeError_null

text \<open>
  The entries of the console; \<open>LoggedCaught e\<close> is the line \<^verbatim>\<open>"error" + e\<close> of the
  \<^verbatim>\<open>catch\<close> of \<^verbatim>\<open>onMount\<close>.
\<close>

datatype logged =
  LoggedString string | LoggedStatus nat | LoggedResponse nat body
  | LoggedError string | LoggedCaught thrown

text \<open>
  A run of an asynchronous function against a network \<open>net\<close> (what each request settles
  to): the requests it made, what it wrote to the console, and what it returned.
\<close>

record 'a run =
  requests :: "Request list"
  console :: "logged list"
  returned :: 'a

subsection \<open>Objects that refer to the store\<close>

text \<open>
  The store of a form view is one mutable array, read through the proxy \<^verbatim>\<open>values\<close> and
  written by \<^verbatim>\<open>setValues\<close>. It lives at an address of a heap; an object that holds
  \<^verbatim>\<open>values\<close> holds the address.
\<close>

type_synonym addr = nat

type_synonym heap = "addr \<rightharpoonup> QuestionResponse list"

definition deref :: "heap \<Rightarrow> addr \<Rightarrow> QuestionResponse list" where
  "deref h a = (case h a of Some vs \<Rightarrow> vs | None \<Rightarrow> [])"

text \<open>\<^verbatim>\<open>FormResponse\<close>: \<^verbatim>\<open>{ formId, questionResponses }\<close>.\<close>

record FormResponse =
  formId :: string
  questionResponses :: addr

text \<open>\<^verbatim>\<open>JSON.stringify(data)\<close> reads the entries that \<open>data\<close> refers to when it is called.\<close>

definition JSON_stringify :: "heap \<Rightarrow> FormResponse \<Rightarrow> js_text" where
  "JSON_stringify h data =
     JSON_of \<lparr>formId_j = formId data, questionResponses_j = deref h (questionResponses data)\<rparr>"

subsection \<open>formRespond (api/form-respond)\<close>

definition baseUrl :: string where
  "baseUrl = ''https://kam-backend.vercel.app/''"

text \<open>
  The request that \<^verbatim>\<open>formRespond\<close> makes, built before its \<^verbatim>\<open>await\<close>; \<open>sec\<close> is the value
  of \<^verbatim>\<open>import.meta.env["VITE_PUBLIC_SEC"]\<close>.
\<close>

definition formRespond_request :: "heap \<Rightarrow> string \<Rightarrow> FormResponse \<Rightarrow> Request" where
  "formRespond_request h sec data =
     \<lparr>url_rq = baseUrl @ ''form/respond?formId='' @ formId data,
      method_rq = Some ''PUT'',
      headers_rq = [(''aKey'', Plain sec), (''Content-Type'', Plain ''application/json'')],
      body_rq = Some (JSON_stringify h data)\<rparr>"

text \<open>
  \<^verbatim>\<open>formRespond(data)\<close>: one \<^verbatim>\<open>fetch\<close>; when it resolves, the status is logged and
  compared with 204; when it rejects, the \<^verbatim>\<open>catch\<close> logs the error and returns \<^verbatim>\<open>false\<close>.
\<close>

definition formRespond ::
  "(Request \<Rightarrow> fetch_result) \<Rightarrow> heap \<Rightarrow> string \<Rightarrow> FormResponse \<Rightarrow> bool run" where
  "formRespond net h sec data =
     (let fetchUrl = baseUrl @ ''form/respond?formId='' @ formId data;
          rq = formRespond_request h sec data
      in case net rq of
           HttpResponse status b \<Rightarrow>
             \<lparr>requests = [rq], console = [LoggedString fetchUrl, LoggedStatus status],
              returned = (status = 204)\<rparr>
         | NetworkError e \<Rightarrow>
             \<lparr>requests = [rq], console = [LoggedString fetchUrl, LoggedError e],
              returned = False\<rparr>)"

subsection \<open>Loading the form (KMFormView)\<close>









subsection \<open>Submitting the form (FormView of KMFormView, and FFormView)\<close>

text \<open>
  The state of a form view: the heap with the store, the address behind \<^verbatim>\<open>values\<close>, the
  signal \<^verbatim>\<open>whenLoading\<close>, the requests handed to \<^verbatim>\<open>fetch\<close> so far, the \<^verbatim>\<open>responses\<close>
  objects that the calls of \<^verbatim>\<open>submitForm\<close> have built, and the signal
  \<^verbatim>\<open>beginViewTransition\<close> of the parent.
\<close>

record FormView_state =
  heap_st :: heap
  values_st :: addr
  whenLoading :: bool
  sent :: "Request list"
  responses :: "FormResponse list"
  beginViewTransition :: bool

definition FormView_create :: "TypeForm \<Rightarrow> FormView_state" where
  "FormView_create data =
     \<lparr>heap_st = [0 \<mapsto> initialiseStore (questions_f data)], values_st = 0,
      whenLoading = False, sent = [], responses = [], beginViewTransition = False\<rparr>"

text \<open>\<^verbatim>\<open>updateStore(id, value)\<close> on the state: \<^verbatim>\<open>setValues\<close> writes the store.\<close>

definition FormView_updateStore :: "FormView_state \<Rightarrow> string \<Rightarrow> string \<Rightarrow> FormView_state" where
  "FormView_updateStore st ident val =
     st\<lparr>heap_st := (heap_st st)(values_st st \<mapsto>
           updateStore (deref (heap_st st) (values_st st)) ident val)\<rparr>"

definition FormView_updates ::
  "FormView_state \<Rightarrow> (string \<times> string) list \<Rightarrow> FormView_state" where
  "FormView_updates st us = foldl (\<lambda>s (ident, val). FormView_updateStore s ident val) st us"

text \<open>
  \<^verbatim>\<open>submitForm\<close> of \<^verbatim>\<open>FormView\<close> (KMFormView), up to its \<^verbatim>\<open>await\<close>: everything before
  it, the evaluation of the arguments of \<^verbatim>\<open>fetch\<close> included, runs in the click handler.
  The method and the body are passed inside \<^verbatim>\<open>headers\<close>, as the source has them.
\<close>

definition FormView_submitForm :: "TypeForm \<Rightarrow> string \<Rightarrow> FormView_state \<Rightarrow> FormView_state" where
  "FormView_submitForm data submitUrl st =
     (let rs = \<lparr>formId = id_f data, questionResponses = values_st st\<rparr>;
          rq = \<lparr>url_rq = submitUrl, method_rq = None,
                headers_rq = [(''method'', Plain ''PUT''),
                              (''body'', JSON_stringify (heap_st st) rs)],
                body_rq = None\<rparr>
      in st\<lparr>whenLoading := True, sent := sent st @ [rq], responses := responses st @ [rs]\<rparr>)"

text \<open>
  \<^verbatim>\<open>submitForm\<close> of \<^verbatim>\<open>FFormView\<close>, up to the \<^verbatim>\<open>await\<close> inside \<^verbatim>\<open>formRespond\<close>: the call of
  \<^verbatim>\<open>formRespond(responses)\<close> runs that function up to its own \<^verbatim>\<open>await\<close>, which builds
  the request and hands it to \<^verbatim>\<open>fetch\<close>.
\<close>

definition FFormView_submitForm :: "TypeForm \<Rightarrow> string \<Rightarrow> FormView_state \<Rightarrow> FormView_state" where
  "FFormView_submitForm data sec st =
     (let rs = \<lparr>formId = id_f data, questionResponses = values_st st\<rparr>;
          rq = formRespond_request (heap_st st) sec rs
      in st\<lparr>whenLoading := True, sent := sent st @ [rq], responses := responses st @ [rs]\<rparr>)"

subsection \<open>An example form\<close>

text \<open>A form that accepts responses, with one short-answer question \<^verbatim>\<open>"q1"\<close>.\<close>

definition exampleForm :: "bool \<Rightarrow> TypeForm" where
  "exampleForm accepting =
     \<lparr>id_f = ''f1'', name_f = ''Example'', createdAt_f = ''2023-12-15'',
      stillAccepting_f = accepting,
      questions_f =
        [\<lparr>id_q = ''q1'', prompt_q = ''Name'', description_q = None, type_q = ShortAnswer,
          options_q = [], required_q = True, default_q = None, placeholder_q = None,
          formId_q = ''f1''\<rparr>]\<rparr>"

section \<open>Facts about the string operations\<close>

lemma startsWith_single: "startsWith s [a] = (s \<noteq> [] \<and> hd s = a)"
  by (cases s) auto

lemma str_includes_single: "str_includes s [a] = (a \<in> set s)"
  by (induction s) (auto simp: startsWith_single)

lemma str_replace_single: "str_replace s [a] '''' = remove1 a s"
  by (induction s) (auto simp: startsWith_single)

lemma validId_single: "validId ident = (\<exists>a. ident = [a] \<and> isDigit a)"
  by (auto simp: validId_def split: list.splits)

lemma onClickListener_multi_single:
  "onClickListener True s [a] = (if a \<in> set s then remove1 a s else s @ [a])"
  by (simp add: onClickListener_def str_includes_single str_replace_single)

lemma remove1_split_first:
  "a \<in> set s \<Longrightarrow> \<exists>xs ys. s = xs @ a # ys \<and> a \<notin> set xs \<and> remove1 a s = xs @ ys"
proof (induction s)
  case Nil
  then show ?case by simp
next
  case (Cons c cs)
  show ?case
  proof (cases "c = a")
    case True
    then have "c # cs = [] @ a # cs \<and> a \<notin> set [] \<and> remove1 a (c # cs) = [] @ cs"
      by simp
    then show ?thesis by blast
  next
    case False
    with Cons obtain xs ys where "cs = xs @ a # ys" "a \<notin> set xs" "remove1 a cs = xs @ ys"
      by auto
    with False have "c # cs = (c # xs) @ a # ys \<and> a \<notin> set (c # xs)
        \<and> remove1 a (c # cs) = (c # xs) @ ys"
      by simp
    then show ?thesis by blast
  qed
qed

section \<open>The toggle operation\<close>

text \<open>
  Claim C1. For every selection state \<open>s\<close> and every single-digit option id \<open>a\<close>: in
  single-select mode the listener returns the empty string when \<open>s\<close> is \<open>a\<close> and \<open>a\<close>
  otherwise; in multi-select mode, when \<open>a\<close> occurs in \<open>s\<close> it returns \<open>s\<close> without one
  occurrence of \<open>a\<close> (the leftmost one), the other characters in their order, and when
  \<open>a\<close> does not occur it returns \<open>s\<close> with \<open>a\<close> appended at the end.
\<close>

theorem onClickListener_toggle:
  assumes "isDigit a"
  shows "onClickListener False s [a] = (if s = [a] then '''' else [a])
    \<and> (if a \<in> set s
       then onClickListener True s [a] = remove1 a s
         \<and> (\<exists>xs ys. s = xs @ a # ys \<and> a \<notin> set xs \<and> onClickListener True s [a] = xs @ ys)
       else onClickListener True s [a] = s @ [a])"
proof -
  have single: "onClickListener False s [a] = (if s = [a] then '''' else [a])"
    by (simp add: onClickListener_def)
  show ?thesis
  proof (cases "a \<in> set s")
    case True
    then have "\<exists>xs ys. s = xs @ a # ys \<and> a \<notin> set xs \<and> onClickListener True s [a] = xs @ ys"
      using remove1_split_first [of a s] by (simp add: onClickListener_multi_single)
    with True single show ?thesis
      by (simp add: onClickListener_multi_single)
  next
    case False
    with single show ?thesis
      by (simp add: onClickListener_multi_single)
  qed
qed

text \<open>
  The scenario of the specification: with the options \<^verbatim>\<open>"0"\<close>, \<^verbatim>\<open>"1"\<close>, \<^verbatim>\<open>"2"\<close> in
  multi-select mode, the state \<^verbatim>\<open>"02"\<close> becomes \<^verbatim>\<open>"2"\<close> when \<^verbatim>\<open>"0"\<close> is clicked again.
\<close>

theorem onClickListener_toggle_witness:
  "isDigit CHR ''0'' \<and> onClickListener True ''02'' ''0'' = ''2''
    \<and> onClickListener False ''02'' ''0'' = ''0''"
  using onClickListener_toggle [of "CHR ''0''" "''02''"]
  by (simp add: isDigit_def)

section \<open>Reachable selection states\<close>

lemma reachable_distinct: "reachable m s \<Longrightarrow> distinct s"
proof (induction rule: reachable.induct)
  case (initial m)
  then show ?case by simp
next
  case (click m s ident)
  then obtain a where a: "ident = [a]"
    by (auto simp: validId_single)
  show ?case
  proof (cases m)
    case True
    with click.IH a show ?thesis
      by (simp add: onClickListener_multi_single)
  next
    case False
    with a show ?thesis
      by (simp add: onClickListener_def)
  qed
qed

lemma reachable_single_length: "reachable False s \<Longrightarrow> length s \<le> 1"
proof (induction False s rule: reachable.induct)
  case initial
  then show ?case by simp
next
  case (click s ident)
  then show ?case
    by (auto simp: validId_single onClickListener_def)
qed

lemma clicks_Cons: "clicks m s (i # ids) = clicks m (onClickListener m s i) ids"
  by (simp add: clicks_def)

text \<open>
  Clicking pairwise different buttons, none of them selected yet, appends their ids in
  the order of the clicks.
\<close>

lemma clicks_fresh:
  "list_all validId ids \<Longrightarrow> distinct ids \<Longrightarrow> set s \<inter> set (concat ids) = {}
    \<Longrightarrow> clicks True s ids = s @ concat ids"
proof (induction ids arbitrary: s)
  case Nil
  then show ?case by (simp add: clicks_def)
next
  case (Cons i ids)
  from Cons.prems(1) obtain a where a: "i = [a]"
    by (auto simp: validId_single)
  from Cons.prems(3) a have fresh: "a \<notin> set s"
    by auto
  from Cons.prems(2) a have "[a] \<notin> set ids"
    by simp
  moreover from Cons.prems(1) have "\<forall>j \<in> set ids. \<exists>b. j = [b]"
    by (auto simp: list_all_iff validId_single)
  ultimately have "a \<notin> set (concat ids)"
    by fastforce
  with Cons.prems(3) a have "set (s @ [a]) \<inter> set (concat ids) = {}"
    by auto
  with Cons.IH [of "s @ [a]"] Cons.prems(1,2)
  have "clicks True (s @ [a]) ids = (s @ [a]) @ concat ids"
    by simp
  with a fresh show ?case
    by (simp add: clicks_Cons onClickListener_multi_single)
qed

lemma clicks_reachable:
  "reachable m s \<Longrightarrow> list_all validId ids \<Longrightarrow> reachable m (clicks m s ids)"
  by (induction ids arbitrary: s) (auto simp: clicks_def intro: reachable.click)

lemma clicks_snoc: "clicks m s (ids @ [i]) = onClickListener m (clicks m s ids) i"
  by (simp add: clicks_def)

text \<open>The reachable states are the results of sequences of clicks on valid ids.\<close>

lemma reachable_iff_clicks:
  "reachable m s = (\<exists>ids. list_all validId ids \<and> s = clicks m '''' ids)"
proof
  assume "reachable m s"
  then show "\<exists>ids. list_all validId ids \<and> s = clicks m '''' ids"
  proof (induction rule: reachable.induct)
    case (initial m)
    have "list_all validId [] \<and> '''' = clicks m '''' []"
      by (simp add: clicks_def)
    then show ?case by blast
  next
    case (click m s ident)
    then obtain ids where "list_all validId ids" "s = clicks m '''' ids"
      by blast
    with click.hyps(2) have "list_all validId (ids @ [ident])
        \<and> onClickListener m s ident = clicks m '''' (ids @ [ident])"
      by (simp add: clicks_snoc)
    then show ?case by blast
  qed
next
  assume "\<exists>ids. list_all validId ids \<and> s = clicks m '''' ids"
  then show "reachable m s"
    using clicks_reachable [OF reachable.initial] by blast
qed

lemma double_click:
  assumes "distinct s"
  shows "onClickListener True (onClickListener True s [a]) [a] =
    (if a \<in> set s then remove1 a s @ [a] else s)"
  using assms by (simp add: onClickListener_multi_single remove1_append)

lemma remove1_snoc_eq:
  assumes "distinct s" "a \<in> set s"
  shows "(remove1 a s @ [a] = s) = (last s = a)"
proof
  assume "remove1 a s @ [a] = s"
  then have "last s = last (remove1 a s @ [a])" by simp
  then show "last s = a" by simp
next
  assume l: "last s = a"
  from assms(2) have "s \<noteq> []" by auto
  with l obtain xs where s: "s = xs @ [a]"
    by (metis append_butlast_last_id)
  with assms(1) have "a \<notin> set xs" by simp
  then have "remove1 a (xs @ [a]) = xs"
    by (simp add: remove1_append)
  with s show "remove1 a s @ [a] = s" by simp
qed

lemma reachable_02: "reachable True ''02''"
proof -
  have "reachable True (onClickListener True (onClickListener True '''' ''0'') ''2'')"
    by (intro reachable.intros) (simp_all add: validId_def isDigit_def)
  then show ?thesis
    by (simp add: onClickListener_multi_single)
qed

lemma reachable_single_1: "reachable False ''1''"
proof -
  have "reachable False (onClickListener False '''' ''1'')"
    by (intro reachable.intros) (simp_all add: validId_def isDigit_def)
  then show ?thesis
    by (simp add: onClickListener_def)
qed

text \<open>
  Claim C6. From the empty selection state and with valid single-digit option ids: no
  reachable state repeats a character; in single-select mode a reachable state has
  length 0 or 1; and after one click on each of pairwise different ids in multi-select
  mode the state is reachable, has no duplicates and is a permutation of those ids.
\<close>

theorem selection_state_invariant:
  "(reachable m s \<longrightarrow> distinct s)
    \<and> (reachable False s \<longrightarrow> length s = 0 \<or> length s = 1)
    \<and> (list_all validId ids \<and> distinct ids \<longrightarrow>
         reachable True (clicks True '''' ids)
         \<and> distinct (clicks True '''' ids)
         \<and> mset (clicks True '''' ids) = mset (concat ids))"
proof (intro conjI impI)
  assume "reachable m s"
  then show "distinct s" by (rule reachable_distinct)
next
  assume "reachable False s"
  then have "length s \<le> 1" by (rule reachable_single_length)
  then show "length s = 0 \<or> length s = 1" by arith
next
  assume ids: "list_all validId ids \<and> distinct ids"
  then show r: "reachable True (clicks True '''' ids)"
    by (simp add: clicks_reachable reachable.initial)
  then show "distinct (clicks True '''' ids)"
    by (rule reachable_distinct)
  from ids have "clicks True '''' ids = '''' @ concat ids"
    by (intro clicks_fresh) simp_all
  then show "mset (clicks True '''' ids) = mset (concat ids)"
    by simp
qed

theorem selection_state_invariant_witness:
  "reachable True ''02'' \<and> distinct ''02''
    \<and> reachable False ''1'' \<and> length ''1'' = 1
    \<and> list_all validId [''0'', ''2'', ''1''] \<and> distinct [''0'', ''2'', ''1'']
    \<and> reachable True (clicks True '''' [''0'', ''2'', ''1''])
    \<and> distinct (clicks True '''' [''0'', ''2'', ''1''])
    \<and> mset (clicks True '''' [''0'', ''2'', ''1'']) = mset ''021''"
proof -
  have v: "list_all validId [''0'', ''2'', ''1''] \<and> distinct [''0'', ''2'', ''1'']"
    by (simp add: validId_def isDigit_def)
  have a: "distinct ''02''"
    using selection_state_invariant [of True "''02''" "[]"] reachable_02 by blast
  have b: "length ''1'' = 1"
    by simp
  have c: "reachable True (clicks True '''' [''0'', ''2'', ''1''])
    \<and> distinct (clicks True '''' [''0'', ''2'', ''1''])
    \<and> mset (clicks True '''' [''0'', ''2'', ''1'']) = mset (concat [''0'', ''2'', ''1''])"
    using selection_state_invariant [of True "''''" "[''0'', ''2'', ''1'']"] v by blast
  from c have "mset (clicks True '''' [''0'', ''2'', ''1'']) = mset ''021''"
    by simp
  with a b c v reachable_02 reachable_single_1 show ?thesis
    by blast
qed

text \<open>
  Claim C2, as the code has it. Two clicks on the same button in multi-select mode, from
  a reachable state \<open>s\<close>, give a state with the same selected ids (a permutation of \<open>s\<close>
  without duplicates). The string itself comes back exactly when the id was not
  selected in \<open>s\<close>, or was the last character of \<open>s\<close>: a selected id is removed by the
  first click and appended at the end by the second.
\<close>

theorem double_toggle_same_selection:
  assumes "reachable True s" and "isDigit a"
  shows "mset (onClickListener True (onClickListener True s [a]) [a]) = mset s
    \<and> distinct (onClickListener True (onClickListener True s [a]) [a])
    \<and> (onClickListener True (onClickListener True s [a]) [a] = s)
        = (a \<notin> set s \<or> last s = a)"
proof -
  from assms(1) have d: "distinct s" by (rule reachable_distinct)
  show ?thesis
  proof (cases "a \<in> set s")
    case True
    with d have "(remove1 a s @ [a] = s) = (last s = a)"
      by (rule remove1_snoc_eq)
    with True d show ?thesis
      by (simp add: double_click)
  next
    case False
    with d show ?thesis
      by (simp add: double_click)
  qed
qed

theorem double_toggle_same_selection_witness:
  "reachable True ''02'' \<and> isDigit CHR ''0''
    \<and> mset (onClickListener True (onClickListener True ''02'' ''0'') ''0'') = mset ''02''
    \<and> onClickListener True (onClickListener True ''02'' ''2'') ''2'' = ''02''"
proof -
  have d: "isDigit CHR ''0''" "isDigit CHR ''2''"
    by (simp_all add: isDigit_def)
  from double_toggle_same_selection [OF reachable_02 d(1)]
  have "mset (onClickListener True (onClickListener True ''02'' ''0'') ''0'') = mset ''02''"
    by blast
  moreover from double_toggle_same_selection [OF reachable_02 d(2)]
  have "onClickListener True (onClickListener True ''02'' ''2'') ''2'' = ''02''"
    by simp
  ultimately show ?thesis
    using reachable_02 d by blast
qed

text \<open>
  The claim as the specification words it (the original string comes back) fails on the
  reachable state \<^verbatim>\<open>"02"\<close>: two clicks on \<^verbatim>\<open>"0"\<close> give \<^verbatim>\<open>"20"\<close>.
\<close>

theorem double_toggle_counterexample:
  "reachable True ''02'' \<and> validId ''0''
    \<and> onClickListener True (onClickListener True ''02'' ''0'') ''0'' = ''20''
    \<and> onClickListener True (onClickListener True ''02'' ''0'') ''0'' \<noteq> ''02''"
  using reachable_02
  by (simp add: onClickListener_multi_single validId_def isDigit_def)

section \<open>The store: initialisation and update\<close>

lemma updateStore_nth:
  "k < length vs \<Longrightarrow> updateStore vs i v ! k =
     (if questionId (vs ! k) = i then (vs ! k)\<lparr>value_r := v\<rparr> else vs ! k)"
  by (simp add: updateStore_def)

lemma updateStore_absent:
  "i \<notin> questionId ` set vs \<Longrightarrow> updateStore vs i v = vs"
  unfolding updateStore_def by (induction vs) auto

lemma updateStore_unique:
  assumes "distinct (map questionId vs)" and "k < length vs" and "questionId (vs ! k) = i"
  shows "updateStore vs i v = vs[k := (vs ! k)\<lparr>value_r := v\<rparr>]"
proof (rule nth_equalityI)
  show "length (updateStore vs i v) = length (vs[k := (vs ! k)\<lparr>value_r := v\<rparr>])"
    by (simp add: updateStore_def)
next
  fix j
  assume "j < length (updateStore vs i v)"
  then have j: "j < length vs"
    by (simp add: updateStore_def)
  show "updateStore vs i v ! j = vs[k := (vs ! k)\<lparr>value_r := v\<rparr>] ! j"
  proof (cases "j = k")
    case True
    with assms j show ?thesis
      by (simp add: updateStore_nth)
  next
    case False
    with assms j have "questionId (vs ! j) \<noteq> i"
      by (metis distinct_conv_nth length_map nth_map)
    with False j show ?thesis
      by (simp add: updateStore_nth)
  qed
qed

text \<open>
  Claim C4. An update keeps the number of entries, the question id of every position
  and every entry with another question id; an entry with the given question id has
  its value replaced and nothing else. With an id that no entry has, the store is
  unchanged. Question ids being unique, the update replaces the value at the one
  position of that id.
\<close>

theorem updateStore_frame:
  "length (updateStore vs i v) = length vs
    \<and> map questionId (updateStore vs i v) = map questionId vs
    \<and> map id_r (updateStore vs i v) = map id_r vs
    \<and> (\<forall>k < length vs. updateStore vs i v ! k =
          (if questionId (vs ! k) = i then (vs ! k)\<lparr>value_r := v\<rparr> else vs ! k))
    \<and> (i \<notin> questionId ` set vs \<longrightarrow> updateStore vs i v = vs)
    \<and> (distinct (map questionId vs) \<longrightarrow>
         (\<forall>k < length vs. questionId (vs ! k) = i \<longrightarrow>
            updateStore vs i v = vs[k := (vs ! k)\<lparr>value_r := v\<rparr>]))"
proof (intro conjI)
  show "length (updateStore vs i v) = length vs"
    by (simp add: updateStore_def)
  show "map questionId (updateStore vs i v) = map questionId vs"
    by (simp add: updateStore_def)
  show "map id_r (updateStore vs i v) = map id_r vs"
    by (simp add: updateStore_def)
  show "\<forall>k < length vs. updateStore vs i v ! k =
          (if questionId (vs ! k) = i then (vs ! k)\<lparr>value_r := v\<rparr> else vs ! k)"
    using updateStore_nth by blast
  show "i \<notin> questionId ` set vs \<longrightarrow> updateStore vs i v = vs"
    using updateStore_absent by blast
  show "distinct (map questionId vs) \<longrightarrow>
         (\<forall>k < length vs. questionId (vs ! k) = i \<longrightarrow>
            updateStore vs i v = vs[k := (vs ! k)\<lparr>value_r := v\<rparr>])"
    using updateStore_unique by blast
qed

theorem updateStore_frame_witness:
  "updateStore [\<lparr>id_r = None, questionId = ''q1'', value_r = ''''\<rparr>,
                \<lparr>id_r = None, questionId = ''q2'', value_r = ''02''\<rparr>] ''q2'' ''2''
     = [\<lparr>id_r = None, questionId = ''q1'', value_r = ''''\<rparr>,
        \<lparr>id_r = None, questionId = ''q2'', value_r = ''2''\<rparr>]
   \<and> updateStore [\<lparr>id_r = None, questionId = ''q1'', value_r = ''''\<rparr>,
                  \<lparr>id_r = None, questionId = ''q2'', value_r = ''02''\<rparr>] ''q3'' ''2''
     = [\<lparr>id_r = None, questionId = ''q1'', value_r = ''''\<rparr>,
        \<lparr>id_r = None, questionId = ''q2'', value_r = ''02''\<rparr>]"
  using updateStore_frame [of "[\<lparr>id_r = None, questionId = ''q1'', value_r = ''''\<rparr>,
                \<lparr>id_r = None, questionId = ''q2'', value_r = ''02''\<rparr>]" "''q2''" "''2''"]
    updateStore_frame [of "[\<lparr>id_r = None, questionId = ''q1'', value_r = ''''\<rparr>,
                \<lparr>id_r = None, questionId = ''q2'', value_r = ''02''\<rparr>]" "''q3''" "''2''"]
  by (simp add: updateStore_def)

text \<open>
  Claim C5. The initial store has one entry per question, in the order of the
  questions, each with the question's id and the empty string as its value; for three
  questions it is the list of their three entries.
\<close>

theorem initialiseStore_entries:
  "length (initialiseStore qs) = length qs
    \<and> map questionId (initialiseStore qs) = map id_q qs
    \<and> (\<forall>e \<in> set (initialiseStore qs). value_r e = '''')
    \<and> (\<forall>k < length qs. initialiseStore qs ! k =
          \<lparr>id_r = None, questionId = id_q (qs ! k), value_r = ''''\<rparr>)
    \<and> initialiseStore [q1, q2, q3] =
         [\<lparr>id_r = None, questionId = id_q q1, value_r = ''''\<rparr>,
          \<lparr>id_r = None, questionId = id_q q2, value_r = ''''\<rparr>,
          \<lparr>id_r = None, questionId = id_q q3, value_r = ''''\<rparr>]"
  by (auto simp: initialiseStore_def)

theorem initialiseStore_entries_witness:
  "initialiseStore (questions_f (exampleForm True))
      = [\<lparr>id_r = None, questionId = ''q1'', value_r = ''''\<rparr>]
    \<and> length (initialiseStore (questions_f (exampleForm True))) = 1
    \<and> value_r (initialiseStore (questions_f (exampleForm True)) ! 0) = ''''"
  using initialiseStore_entries [of "questions_f (exampleForm True)"]
  by (simp add: exampleForm_def initialiseStore_def)

lemma FormView_updateStore_store:
  "deref (heap_st (FormView_updateStore st i v)) (values_st st)
     = updateStore (deref (heap_st st) (values_st st)) i v"
  by (simp add: FormView_updateStore_def deref_def)

section \<open>The error flag of the text questions\<close>

lemma errorTrace_length: "length (errorTrace h e cs) = Suc (length cs)"
  by (induction cs arbitrary: e) auto

lemma errorTrace_nth:
  "k < length cs \<Longrightarrow> errorTrace h e cs ! Suc k = fst (h (cs ! k))"
proof (induction cs arbitrary: e k)
  case Nil
  then show ?case by simp
next
  case (Cons c cs)
  then show ?case
  proof (cases k)
    case 0
    then show ?thesis by (cases cs) simp_all
  next
    case (Suc j)
    with Cons show ?thesis by simp
  qed
qed

text \<open>
  Claim C9. In the short-answer view the error flag after a keystroke is true exactly
  when the field is empty and the question is required, so it is false as soon as the
  field is not empty, and the error message is hidden exactly when the flag is false; over any sequence of keystrokes the flag after the \<open>k\<close>-th one
  says so of the \<open>k\<close>-th content; for a required question, typing \<^verbatim>\<open>"x"\<close> and deleting
  it takes the flag through false, false, true.
\<close>

theorem short_answer_error_flag:
  "fst (KMShortPromptView_onValueChange required i c) = (c = '''' \<and> required)
    \<and> (c \<noteq> '''' \<longrightarrow> \<not> fst (KMShortPromptView_onValueChange required i c))
    \<and> KMShortPromptView_hidden (fst (KMShortPromptView_onValueChange required i c))
        = (\<not> (c = '''' \<and> required))
    \<and> (\<forall>k < length cs.
         errorTrace (KMShortPromptView_onValueChange required i) False cs ! Suc k
           = (cs ! k = '''' \<and> required))
    \<and> errorTrace (KMShortPromptView_onValueChange True i) False [''x'', '''']
         = [False, False, True]"
  by (simp add: errorTrace_nth)
    (simp add: KMShortPromptView_onValueChange_def KMShortPromptView_hidden_def)

theorem short_answer_error_flag_witness:
  "errorTrace (KMShortPromptView_onValueChange True ''q'') False [''x'', ''xy'', ''x'', '''']
      ! Suc 3 = True
    \<and> errorTrace (KMShortPromptView_onValueChange True ''q'') False [''x'', ''xy'', ''x'', '''']
      ! Suc 2 = False
    \<and> fst (KMShortPromptView_onValueChange False ''q'' '''') = False"
  using short_answer_error_flag [of True "''q''" "''''" "[''x'', ''xy'', ''x'', '''']"]
    short_answer_error_flag [of False "''q''" "''''" "[]"]
  by simp

text \<open>
  Claim C10. In the long-answer view the error flag after a keystroke is true exactly
  when the textarea is empty, whether or not the question is required; the error message
  is hidden unless the flag is set and the question is required. The flag differs from
  the one of the short-answer view exactly on an empty field of a question that is not
  required.
\<close>

theorem long_answer_error_flag:
  "fst (FLongPromptView_onValueChange required i c) = (c = '''')
    \<and> FLongPromptView_hidden (fst (FLongPromptView_onValueChange required i c)) required
        = (\<not> (c = '''' \<and> required))
    \<and> (fst (FLongPromptView_onValueChange required i c)
         \<noteq> fst (KMShortPromptView_onValueChange required i c))
        = (c = '''' \<and> \<not> required)
    \<and> (\<forall>k < length cs.
         errorTrace (FLongPromptView_onValueChange required i) False cs ! Suc k
           = (cs ! k = ''''))"
  by (simp add: errorTrace_nth)
    (auto simp: FLongPromptView_onValueChange_def FLongPromptView_hidden_def
      KMShortPromptView_onValueChange_def)

theorem long_answer_error_flag_witness:
  "fst (FLongPromptView_onValueChange False ''q'' '''') = True
    \<and> fst (KMShortPromptView_onValueChange False ''q'' '''') = False
    \<and> FLongPromptView_hidden (fst (FLongPromptView_onValueChange False ''q'' '''')) False
    \<and> errorTrace (FLongPromptView_onValueChange False ''q'') False [''x'', ''''] ! Suc 1 = True"
  using long_answer_error_flag [of False "''q''" "''''" "[''x'', '''']"]
  by (simp add: KMShortPromptView_onValueChange_def FLongPromptView_onValueChange_def
      FLongPromptView_hidden_def)

section \<open>Submitting a response: the status check\<close>

lemma formRespond_returned:
  "returned (formRespond net h sec data)
     = (\<exists>b. net (formRespond_request h sec data) = HttpResponse 204 b)"
  by (simp add: formRespond_def Let_def split: fetch_result.splits)

lemma formRespond_once:
  "requests (formRespond net h sec data) = [formRespond_request h sec data]"
  by (simp add: formRespond_def Let_def split: fetch_result.splits)

lemma formRespond_logs:
  "console (formRespond net h sec data) =
     [LoggedString (baseUrl @ ''form/respond?formId='' @ formId data),
      (case net (formRespond_request h sec data) of
         HttpResponse status b \<Rightarrow> LoggedStatus status
       | NetworkError e \<Rightarrow> LoggedError e)]"
  by (simp add: formRespond_def Let_def split: fetch_result.splits)

text \<open>
  Claim C7. The documentation of \<^verbatim>\<open>formRespond\<close> says that it returns \<^verbatim>\<open>true\<close> if the
  server returns status 200, and the specification counts 200 as a success status next
  to 204. The code compares the status with 204 only: on a response with status 200 it
  makes its one request, logs the status and returns \<^verbatim>\<open>false\<close>, as it does for a failure;
  on 204 it returns \<^verbatim>\<open>true\<close>.
\<close>

theorem formRespond_status_200:
  "returned (formRespond (\<lambda>rq. HttpResponse 200 b) h sec data) = False
    \<and> console (formRespond (\<lambda>rq. HttpResponse 200 b) h sec data) =
        [LoggedString (baseUrl @ ''form/respond?formId='' @ formId data), LoggedStatus 200]
    \<and> requests (formRespond (\<lambda>rq. HttpResponse 200 b) h sec data) =
        [formRespond_request h sec data]
    \<and> returned (formRespond (\<lambda>rq. HttpResponse 204 b) h sec data) = True"
  by (simp add: formRespond_def Let_def)

section \<open>Loading the form: the screens\<close>










section \<open>Submitting the form: the payload and the store\<close>

lemma FormView_updates_Cons:
  "FormView_updates st ((i, v) # us) = FormView_updates (FormView_updateStore st i v) us"
  by (simp add: FormView_updates_def)

lemma FormView_updates_frame:
  "sent (FormView_updates st us) = sent st
    \<and> responses (FormView_updates st us) = responses st
    \<and> values_st (FormView_updates st us) = values_st st
    \<and> whenLoading (FormView_updates st us) = whenLoading st"
proof (induction us arbitrary: st)
  case Nil
  then show ?case by (simp add: FormView_updates_def)
next
  case (Cons u us)
  obtain i v where u: "u = (i, v)" by (cases u)
  show ?case
    unfolding u FormView_updates_Cons
    using Cons [of "FormView_updateStore st i v"]
    by (simp add: FormView_updateStore_def)
qed

lemma FormView_updates_store:
  "deref (heap_st (FormView_updates st us)) (values_st st)
     = foldl (\<lambda>vs (i, v). updateStore vs i v) (deref (heap_st st) (values_st st)) us"
proof (induction us arbitrary: st)
  case Nil
  then show ?case by (simp add: FormView_updates_def)
next
  case (Cons u us)
  obtain i v where u: "u = (i, v)" by (cases u)
  have "values_st (FormView_updateStore st i v) = values_st st"
    by (simp add: FormView_updateStore_def)
  moreover have "deref (heap_st (FormView_updateStore st i v)) (values_st st)
      = updateStore (deref (heap_st st) (values_st st)) i v"
    by (simp add: FormView_updateStore_def deref_def)
  ultimately show ?case
    unfolding u FormView_updates_Cons
    using Cons [of "FormView_updateStore st i v"] by simp
qed

text \<open>
  Claim C3, as the code has it. The \<^verbatim>\<open>responses\<close> object that \<^verbatim>\<open>submitForm\<close> builds
  holds the store itself, not a copy of it: read after later updates, it has the updated
  entries. The JSON text of it is made inside the call of \<^verbatim>\<open>submitForm\<close>, before any
  later update can run; the request handed to \<^verbatim>\<open>fetch\<close> carries the entries of the time
  of the submit and is the same after any updates that follow while the request is in
  flight. This holds for both form views.
\<close>

theorem submitted_payload_fixed:
  "sent (FormView_updates (FormView_submitForm data url st) us) =
      sent st @ [\<lparr>url_rq = url, method_rq = None,
                  headers_rq = [(''method'', Plain ''PUT''),
                    (''body'', JSON_of \<lparr>formId_j = id_f data,
                       questionResponses_j = deref (heap_st st) (values_st st)\<rparr>)],
                  body_rq = None\<rparr>]
    \<and> sent (FormView_updates (FFormView_submitForm data sec st) us) =
      sent st @ [\<lparr>url_rq = baseUrl @ ''form/respond?formId='' @ id_f data,
                  method_rq = Some ''PUT'',
                  headers_rq = [(''aKey'', Plain sec),
                    (''Content-Type'', Plain ''application/json'')],
                  body_rq = Some (JSON_of \<lparr>formId_j = id_f data,
                       questionResponses_j = deref (heap_st st) (values_st st)\<rparr>)\<rparr>]
    \<and> responses (FormView_updates (FormView_submitForm data url st) us) =
      responses st @ [\<lparr>formId = id_f data, questionResponses = values_st st\<rparr>]
    \<and> responses (FormView_updates (FFormView_submitForm data sec st) us) =
      responses st @ [\<lparr>formId = id_f data, questionResponses = values_st st\<rparr>]
    \<and> JSON_stringify (heap_st (FormView_updates (FormView_submitForm data url st) us))
        \<lparr>formId = id_f data, questionResponses = values_st st\<rparr> =
      JSON_of \<lparr>formId_j = id_f data,
        questionResponses_j =
          foldl (\<lambda>vs (i, v). updateStore vs i v) (deref (heap_st st) (values_st st)) us\<rparr>"
proof (intro conjI)
  show "sent (FormView_updates (FormView_submitForm data url st) us) =
      sent st @ [\<lparr>url_rq = url, method_rq = None,
                  headers_rq = [(''method'', Plain ''PUT''),
                    (''body'', JSON_of \<lparr>formId_j = id_f data,
                       questionResponses_j = deref (heap_st st) (values_st st)\<rparr>)],
                  body_rq = None\<rparr>]"
    by (simp add: FormView_updates_frame) (simp add: FormView_submitForm_def JSON_stringify_def Let_def)
  show "sent (FormView_updates (FFormView_submitForm data sec st) us) =
      sent st @ [\<lparr>url_rq = baseUrl @ ''form/respond?formId='' @ id_f data,
                  method_rq = Some ''PUT'',
                  headers_rq = [(''aKey'', Plain sec),
                    (''Content-Type'', Plain ''application/json'')],
                  body_rq = Some (JSON_of \<lparr>formId_j = id_f data,
                       questionResponses_j = deref (heap_st st) (values_st st)\<rparr>)\<rparr>]"
    by (simp add: FormView_updates_frame)
      (simp add: FFormView_submitForm_def formRespond_request_def JSON_stringify_def Let_def)
  show "responses (FormView_updates (FormView_submitForm data url st) us) =
      responses st @ [\<lparr>formId = id_f data, questionResponses = values_st st\<rparr>]"
    by (simp add: FormView_updates_frame) (simp add: FormView_submitForm_def Let_def)
  show "responses (FormView_updates (FFormView_submitForm data sec st) us) =
      responses st @ [\<lparr>formId = id_f data, questionResponses = values_st st\<rparr>]"
    by (simp add: FormView_updates_frame) (simp add: FFormView_submitForm_def Let_def)
  have v: "values_st (FormView_submitForm data url st) = values_st st"
    and h: "heap_st (FormView_submitForm data url st) = heap_st st"
    by (simp_all add: FormView_submitForm_def Let_def)
  show "JSON_stringify (heap_st (FormView_updates (FormView_submitForm data url st) us))
        \<lparr>formId = id_f data, questionResponses = values_st st\<rparr> =
      JSON_of \<lparr>formId_j = id_f data,
        questionResponses_j =
          foldl (\<lambda>vs (i, v). updateStore vs i v) (deref (heap_st st) (values_st st)) us\<rparr>"
    using FormView_updates_store [of "FormView_submitForm data url st" us]
    by (simp add: JSON_stringify_def v h)
qed

text \<open>
  The claim as the specification words it (the form response is a copy that later updates
  do not alter) fails: on the example form, the \<^verbatim>\<open>responses\<close> object of a submit has the
  value \<^verbatim>\<open>""\<close> for \<^verbatim>\<open>"q1"\<close> when it is built, and the value \<^verbatim>\<open>"x"\<close> after the update of
  \<^verbatim>\<open>"q1"\<close> that follows the submit.
\<close>

theorem form_response_alias_counterexample:
  "responses (FFormView_submitForm (exampleForm True) ''key'' (FormView_create (exampleForm True)))
      = [\<lparr>formId = ''f1'', questionResponses = 0\<rparr>]
    \<and> deref (heap_st (FFormView_submitForm (exampleForm True) ''key''
          (FormView_create (exampleForm True)))) 0
      = [\<lparr>id_r = None, questionId = ''q1'', value_r = ''''\<rparr>]
    \<and> deref (heap_st (FormView_updateStore (FFormView_submitForm (exampleForm True) ''key''
          (FormView_create (exampleForm True))) ''q1'' ''x'')) 0
      = [\<lparr>id_r = None, questionId = ''q1'', value_r = ''x''\<rparr>]
    \<and> JSON_stringify (heap_st (FormView_updateStore (FFormView_submitForm (exampleForm True)
          ''key'' (FormView_create (exampleForm True))) ''q1'' ''x''))
        \<lparr>formId = ''f1'', questionResponses = 0\<rparr>
      \<noteq> JSON_stringify (heap_st (FFormView_submitForm (exampleForm True) ''key''
          (FormView_create (exampleForm True))))
        \<lparr>formId = ''f1'', questionResponses = 0\<rparr>"
  by (simp add: FFormView_submitForm_def FormView_create_def FormView_updateStore_def
      exampleForm_def initialiseStore_def updateStore_def deref_def JSON_stringify_def
      formRespond_request_def Let_def)

end
